theory Spec2Isabelle
  imports
    Main
    "HOL-Library.Sublist"
    "HOL-Library.Char_ord"
    "HOL-Library.List_Lexorder"
    "HOL-Library.Product_Lexorder"
begin

section \<open>The document tree and the Python operations the analyzer uses on it\<close>

text \<open>
  A loaded specification is the tree that the JSON loader builds: mappings with string
  keys (in document order), sequences and scalars.  A string is its UTF-8 encoding: the
  lexicographic order of the bytes is the order of Python's code points, a substring of code
  points is a substring of bytes, and one character is a lead byte with its continuation
  bytes (\<open>utf8_chars\<close>).  Numbers are the integers; fractional numbers play no part in
  the functions below and are left out of the tree, as are strings with an unpaired
  surrogate, which have no encoding.  A mapping is the list of its items in insertion order;
  a Python mapping has no key twice.
\<close>

datatype json =
    JNull
  | JBool bool
  | JInt int
  | JStr string
  | JList "json list"
  | JObj "(string \<times> json) list"

text \<open>The exceptions the code can raise on a tree of the wrong shape.\<close>

datatype error = KeyError | TypeError | AttributeError | IndexError

type_synonym 'a result = "error + 'a"

definition bindE :: "'a result \<Rightarrow> ('a \<Rightarrow> 'b result) \<Rightarrow> 'b result" where
  "bindE m f = (case m of Inl e \<Rightarrow> Inl e | Inr x \<Rightarrow> f x)"

text \<open>\<^verbatim>\<open>isinstance(x, dict)\<close>\<close>

fun is_dict :: "json \<Rightarrow> bool" where
  "is_dict (JObj kvs) = True"
| "is_dict _ = False"

text \<open>
  \<^verbatim>\<open>k in x\<close> for a string \<open>k\<close>: a key test on a mapping, an element test on a
  sequence, a substring test on a string, and \<open>TypeError\<close> on every other scalar.
\<close>

fun py_in :: "string \<Rightarrow> json \<Rightarrow> bool result" where
  "py_in k (JObj kvs) = Inr (k \<in> set (map fst kvs))"
| "py_in k (JList xs) = Inr (JStr k \<in> set xs)"
| "py_in k (JStr s) = Inr (sublist k s)"
| "py_in k _ = Inl TypeError"

text \<open>
  \<^verbatim>\<open>x[k]\<close> for a string \<open>k\<close>: \<open>KeyError\<close> on a mapping without the key,
  \<open>TypeError\<close> on a sequence or a string (their indices are integers) and on the other
  scalars (not subscriptable).
\<close>

fun py_getitem :: "json \<Rightarrow> string \<Rightarrow> json result" where
  "py_getitem (JObj kvs) k = (case map_of kvs k of None \<Rightarrow> Inl KeyError | Some v \<Rightarrow> Inr v)"
| "py_getitem _ k = Inl TypeError"

text \<open>\<^verbatim>\<open>x.get(k, d)\<close>: only a mapping has the method.\<close>

fun py_get :: "json \<Rightarrow> string \<Rightarrow> json \<Rightarrow> json result" where
  "py_get (JObj kvs) k d = (case map_of kvs k of None \<Rightarrow> Inr d | Some v \<Rightarrow> Inr v)"
| "py_get _ k d = Inl AttributeError"

text \<open>\<^verbatim>\<open>x.items()\<close>: only a mapping has the method.\<close>

fun py_items :: "json \<Rightarrow> (string \<times> json) list result" where
  "py_items (JObj kvs) = Inr kvs"
| "py_items _ = Inl AttributeError"

text \<open>
  The characters of a string: every byte that is not a continuation byte (\<open>10xxxxxx\<close>)
  starts a character, which takes the continuation bytes after it.
\<close>

definition is_continuation :: "char \<Rightarrow> bool" where
  "is_continuation c = (128 \<le> (of_char c :: nat) \<and> (of_char c :: nat) < 192)"

function utf8_chars :: "string \<Rightarrow> string list" where
  "utf8_chars [] = []"
| "utf8_chars (c # cs) =
     (c # takeWhile is_continuation cs) # utf8_chars (dropWhile is_continuation cs)"
  by pat_completeness auto
termination
  by (relation "measure length") (auto simp: length_dropWhile_le less_Suc_eq_le)

text \<open>
  \<^verbatim>\<open>for t in x\<close>: the elements of a sequence, the keys of a mapping, the characters of a
  string; the other scalars are not iterable.
\<close>

fun py_iter :: "json \<Rightarrow> json list result" where
  "py_iter (JList xs) = Inr xs"
| "py_iter (JObj kvs) = Inr (map (\<lambda>kv. JStr (fst kv)) kvs)"
| "py_iter (JStr s) = Inr (map JStr (utf8_chars s))"
| "py_iter _ = Inl TypeError"

text \<open>Truth value of a tree in a condition.\<close>

fun truthy :: "json \<Rightarrow> bool" where
  "truthy JNull = False"
| "truthy (JBool b) = b"
| "truthy (JInt i) = (i \<noteq> 0)"
| "truthy (JStr s) = (s \<noteq> [])"
| "truthy (JList xs) = (xs \<noteq> [])"
| "truthy (JObj kvs) = (kvs \<noteq> [])"

text \<open>\<^verbatim>\<open>len(x)\<close>\<close>

fun py_len :: "json \<Rightarrow> nat result" where
  "py_len (JObj kvs) = Inr (length kvs)"
| "py_len (JList xs) = Inr (length xs)"
| "py_len (JStr s) = Inr (length (utf8_chars s))"
| "py_len _ = Inl TypeError"

section \<open>OpenAPIValidator\<close>

text \<open>
  \<^verbatim>\<open>is_valid_openapi\<close>: each check appends its message to \<open>errors\<close>; the function returns
  \<open>(len(errors) == 0, errors)\<close>.  An apostrophe next to the end of a message is written
  \<open>CHR 0x27\<close>.  The conjunction of the first check is evaluated from
  the left, and \<open>info.title\<close> and \<open>info.version\<close> are looked at only in the branch
  where \<open>info\<close> is a mapping.
\<close>

definition check_version_key :: "json \<Rightarrow> string list result" where
  "check_version_key spec =
     bindE (py_in ''openapi'' spec) (\<lambda>has_openapi.
       if has_openapi then Inr []
       else bindE (py_in ''swagger'' spec) (\<lambda>has_swagger.
         if has_swagger then Inr [] else Inr [''Missing 'openapi' or 'swagger' field'']))"

definition check_info :: "json \<Rightarrow> string list result" where
  "check_info spec =
     bindE (py_in ''info'' spec) (\<lambda>has_info.
       if \<not> has_info then Inr [''Missing 'info' object'']
       else bindE (py_getitem spec ''info'') (\<lambda>info.
         if \<not> is_dict info then Inr [CHR 0x27 # ''info' must be an object'']
         else bindE (py_in ''title'' info) (\<lambda>has_title.
              bindE (py_in ''version'' info) (\<lambda>has_version.
                Inr ((if has_title then [] else [''Missing 'info.title'' @ [CHR 0x27]]) @
                     (if has_version then [] else [''Missing 'info.version'' @ [CHR 0x27]]))))))"

definition check_paths :: "json \<Rightarrow> string list result" where
  "check_paths spec =
     bindE (py_in ''paths'' spec) (\<lambda>has_paths.
       if has_paths then Inr [] else Inr [''Missing 'paths' object''])"

definition is_valid_openapi :: "json \<Rightarrow> (bool \<times> string list) result" where
  "is_valid_openapi spec =
     bindE (check_version_key spec) (\<lambda>e1.
     bindE (check_info spec) (\<lambda>e2.
     bindE (check_paths spec) (\<lambda>e3.
       let errors = e1 @ e2 @ e3 in Inr (errors = [], errors))))"

section \<open>String operations\<close>

text \<open>
  \<^verbatim>\<open>upper\<close> and \<open>lower\<close> on the ASCII letters.  The code upper-cases only the method
  names of its own lists, which are ASCII.  It lower-cases the method name that a caller
  passes: there Python's \<open>str.lower\<close> is a parameter of the model, and \<open>ascii_lower\<close> is
  what it does on ASCII strings.
\<close>

definition upper_char :: "char \<Rightarrow> char" where
  "upper_char c =
     (case map_of (zip ''abcdefghijklmnopqrstuvwxyz'' ''ABCDEFGHIJKLMNOPQRSTUVWXYZ'') c of
        None \<Rightarrow> c | Some C \<Rightarrow> C)"

definition lower_char :: "char \<Rightarrow> char" where
  "lower_char c =
     (case map_of (zip ''ABCDEFGHIJKLMNOPQRSTUVWXYZ'' ''abcdefghijklmnopqrstuvwxyz'') c of
        None \<Rightarrow> c | Some C \<Rightarrow> C)"

definition upper :: "string \<Rightarrow> string" where
  "upper s = map upper_char s"

definition ascii_lower :: "string \<Rightarrow> string" where
  "ascii_lower s = map lower_char s"

text \<open>\<^verbatim>\<open>s.split(sep)\<close> for a one-character separator: empty pieces are kept.\<close>

fun py_split :: "char \<Rightarrow> string \<Rightarrow> string list" where
  "py_split sep [] = [[]]"
| "py_split sep (c # cs) =
     (if c = sep then [] # py_split sep cs
      else (case py_split sep cs of [] \<Rightarrow> [[c]] | p # ps \<Rightarrow> (c # p) # ps))"

text \<open>\<^verbatim>\<open>sep.join(xs)\<close> on strings.\<close>

fun join :: "string \<Rightarrow> string list \<Rightarrow> string" where
  "join sep [] = []"
| "join sep [x] = x"
| "join sep (x # y # ys) = x @ sep @ join sep (y # ys)"

text \<open>
  \<^verbatim>\<open>sep.join(x)\<close> on a tree: \<open>x\<close> is iterated and every item must be a string.
\<close>

fun as_strs :: "json list \<Rightarrow> string list result" where
  "as_strs [] = Inr []"
| "as_strs (JStr s # xs) = bindE (as_strs xs) (\<lambda>ss. Inr (s # ss))"
| "as_strs (_ # xs) = Inl TypeError"

definition str_join :: "string \<Rightarrow> json \<Rightarrow> string result" where
  "str_join sep x = bindE (py_iter x) (\<lambda>xs. bindE (as_strs xs) (\<lambda>ss. Inr (join sep ss)))"

section \<open>Counting dictionaries\<close>

text \<open>
  A list or a mapping cannot be a dictionary key (\<open>TypeError\<close>: unhashable).  Among the
  keys, \<open>True\<close> is the key \<open>1\<close> and \<open>False\<close> the key \<open>0\<close>.
\<close>

fun hashable :: "json \<Rightarrow> bool" where
  "hashable (JList xs) = False"
| "hashable (JObj kvs) = False"
| "hashable _ = True"

fun key_eq :: "json \<Rightarrow> json \<Rightarrow> bool" where
  "key_eq (JBool a) (JInt i) = (i = (if a then 1 else 0))"
| "key_eq (JInt i) (JBool a) = (i = (if a then 1 else 0))"
| "key_eq x y = (x = y)"

text \<open>
  \<^verbatim>\<open>d[k] = d.get(k, 0) + 1\<close>: an existing entry keeps its place and its key, a new one
  goes to the end.
\<close>

fun incr :: "('k \<Rightarrow> 'k \<Rightarrow> bool) \<Rightarrow> ('k \<times> nat) list \<Rightarrow> 'k \<Rightarrow> ('k \<times> nat) list" where
  "incr eq [] k = [(k, 1)]"
| "incr eq ((k', n) # d) k =
     (if eq k' k then (k', n + 1) # d else (k', n) # incr eq d k)"


section \<open>OpenAPIAnalyzer\<close>

text \<open>The method names that the analyzer looks for in a path item, in its order.\<close>

definition METHODS :: "string list" where
  "METHODS = [''get'', ''post'', ''put'', ''delete'', ''patch'', ''head'', ''options'']"

subsection \<open>get_statistics\<close>

record statistics =
  title :: json
  version :: json
  total_endpoints :: nat
  methods :: "(string \<times> nat) list"
  tags :: "(json \<times> nat) list"
  schemas :: nat
  security_schemes :: nat

text \<open>The three counters of the walk: \<open>endpoints_count\<close>, \<open>methods_count\<close>, \<open>tags_count\<close>.\<close>

type_synonym counters = "nat \<times> (string \<times> nat) list \<times> (json \<times> nat) list"

fun count_tags :: "json list \<Rightarrow> (json \<times> nat) list \<Rightarrow> (json \<times> nat) list result" where
  "count_tags [] tc = Inr tc"
| "count_tags (t # ts) tc =
     (if hashable t then count_tags ts (incr key_eq tc t) else Inl TypeError)"

fun stats_methods :: "json \<Rightarrow> string list \<Rightarrow> counters \<Rightarrow> counters result" where
  "stats_methods path_item [] acc = Inr acc"
| "stats_methods path_item (m # ms) (n, mc, tc) =
     bindE (py_in m path_item) (\<lambda>present.
       if present then
         bindE (py_getitem path_item m) (\<lambda>operation.
         bindE (py_get operation ''tags'' (JList [JStr ''untagged''])) (\<lambda>tgs.
         bindE (py_iter tgs) (\<lambda>ts.
         bindE (count_tags ts tc) (\<lambda>tc'.
           stats_methods path_item ms (n + 1, incr (=) mc m, tc')))))
       else stats_methods path_item ms (n, mc, tc))"

fun stats_paths :: "(string \<times> json) list \<Rightarrow> counters \<Rightarrow> counters result" where
  "stats_paths [] acc = Inr acc"
| "stats_paths ((path, path_item) # rest) acc =
     bindE (stats_methods path_item METHODS acc) (\<lambda>acc'. stats_paths rest acc')"

definition get_statistics :: "json \<Rightarrow> statistics result" where
  "get_statistics spec =
     bindE (py_get spec ''paths'' (JObj [])) (\<lambda>paths.
     bindE (py_items paths) (\<lambda>path_items.
     bindE (stats_paths path_items (0, [], [])) (\<lambda>(endpoints_count, methods_count, tags_count).
     bindE (py_get spec ''components'' (JObj [])) (\<lambda>components.
     bindE (py_get spec ''info'' (JObj [])) (\<lambda>info1.
     bindE (py_get info1 ''title'' (JStr ''Unknown'')) (\<lambda>t.
     bindE (py_get spec ''info'' (JObj [])) (\<lambda>info2.
     bindE (py_get info2 ''version'' (JStr ''Unknown'')) (\<lambda>v.
     bindE (py_get components ''schemas'' (JObj [])) (\<lambda>s.
     bindE (py_len s) (\<lambda>ns.
     bindE (py_get components ''securitySchemes'' (JObj [])) (\<lambda>ss.
     bindE (py_len ss) (\<lambda>nss.
       Inr \<lparr> title = t, version = v, total_endpoints = endpoints_count,
             methods = methods_count, tags = tags_count,
             schemas = ns, security_schemes = nss \<rparr>))))))))))))"

subsection \<open>find_endpoints_by_tag\<close>

record tag_endpoint =
  te_method :: string
  te_path :: string
  te_summary :: json
  te_description :: json

fun by_tag_methods :: "string \<Rightarrow> string \<Rightarrow> json \<Rightarrow> string list \<Rightarrow> tag_endpoint list
                         \<Rightarrow> tag_endpoint list result" where
  "by_tag_methods tag path path_item [] endpoints = Inr endpoints"
| "by_tag_methods tag path path_item (m # ms) endpoints =
     bindE (py_in m path_item) (\<lambda>present.
       if present then
         bindE (py_getitem path_item m) (\<lambda>operation.
         bindE (py_get operation ''tags'' (JList [])) (\<lambda>tgs.
         bindE (py_in tag tgs) (\<lambda>tagged.
           if tagged then
             bindE (py_get operation ''summary'' (JStr [])) (\<lambda>s.
             bindE (py_get operation ''description'' (JStr [])) (\<lambda>d.
               by_tag_methods tag path path_item ms
                 (endpoints @ [\<lparr> te_method = upper m, te_path = path,
                                 te_summary = s, te_description = d \<rparr>])))
           else by_tag_methods tag path path_item ms endpoints)))
       else by_tag_methods tag path path_item ms endpoints)"

fun by_tag_paths :: "string \<Rightarrow> (string \<times> json) list \<Rightarrow> tag_endpoint list
                       \<Rightarrow> tag_endpoint list result" where
  "by_tag_paths tag [] endpoints = Inr endpoints"
| "by_tag_paths tag ((path, path_item) # rest) endpoints =
     bindE (by_tag_methods tag path path_item METHODS endpoints) (\<lambda>endpoints'.
       by_tag_paths tag rest endpoints')"

definition find_endpoints_by_tag :: "json \<Rightarrow> string \<Rightarrow> tag_endpoint list result" where
  "find_endpoints_by_tag spec tag =
     bindE (py_get spec ''paths'' (JObj [])) (\<lambda>paths.
     bindE (py_items paths) (\<lambda>path_items.
       by_tag_paths tag path_items []))"

subsection \<open>list_all_endpoints\<close>

record endpoint =
  ep_method :: string
  ep_path :: string
  ep_summary :: json
  ep_tags :: json
  ep_deprecated :: json

fun endpoints_methods :: "string \<Rightarrow> json \<Rightarrow> string list \<Rightarrow> endpoint list
                            \<Rightarrow> endpoint list result" where
  "endpoints_methods path path_item [] endpoints = Inr endpoints"
| "endpoints_methods path path_item (m # ms) endpoints =
     bindE (py_in m path_item) (\<lambda>present.
       if present then
         bindE (py_getitem path_item m) (\<lambda>operation.
         bindE (py_get operation ''summary'' (JStr [])) (\<lambda>s.
         bindE (py_get operation ''tags'' (JList [])) (\<lambda>tgs.
         bindE (py_get operation ''deprecated'' (JBool False)) (\<lambda>d.
           endpoints_methods path path_item ms
             (endpoints @ [\<lparr> ep_method = upper m, ep_path = path, ep_summary = s,
                             ep_tags = tgs, ep_deprecated = d \<rparr>])))))
       else endpoints_methods path path_item ms endpoints)"

fun endpoints_paths :: "(string \<times> json) list \<Rightarrow> endpoint list \<Rightarrow> endpoint list result" where
  "endpoints_paths [] endpoints = Inr endpoints"
| "endpoints_paths ((path, path_item) # rest) endpoints =
     bindE (endpoints_methods path path_item METHODS endpoints) (\<lambda>endpoints'.
       endpoints_paths rest endpoints')"

text \<open>
  The result is sorted by the key \<open>(path, method)\<close>: pairs compare lexicographically,
  strings compare lexicographically by character code, and the sort is stable.
\<close>

definition list_all_endpoints :: "json \<Rightarrow> endpoint list result" where
  "list_all_endpoints spec =
     bindE (py_get spec ''paths'' (JObj [])) (\<lambda>paths.
     bindE (py_items paths) (\<lambda>path_items.
     bindE (endpoints_paths path_items []) (\<lambda>endpoints.
       Inr (sort_key (\<lambda>x. (ep_path x, ep_method x)) endpoints))))"

subsection \<open>get_request_body_schema and get_response_schemas\<close>

text \<open>
  \<^verbatim>\<open>try: ... except (KeyError, TypeError): return d\<close>.  An \<open>AttributeError\<close> is not
  caught.  Python's \<open>None\<close> is \<open>JNull\<close>.  The first argument \<open>lower\<close> of the two
  functions is \<open>str.lower\<close>.
\<close>

definition catch_key_type :: "'a result \<Rightarrow> 'a \<Rightarrow> 'a result" where
  "catch_key_type body d =
     (case body of
        Inl e \<Rightarrow> if e = KeyError \<or> e = TypeError then Inr d else Inl e
      | Inr x \<Rightarrow> Inr x)"

text \<open>\<^verbatim>\<open>self.spec["paths"][path][method]\<close>\<close>

definition operation_at :: "json \<Rightarrow> string \<Rightarrow> string \<Rightarrow> json result" where
  "operation_at spec path method =
     bindE (py_getitem spec ''paths'') (\<lambda>paths.
     bindE (py_getitem paths path) (\<lambda>path_item.
       py_getitem path_item method))"

text \<open>The loop over the content types: the first one with a \<open>schema\<close> key returns.\<close>

fun first_schema :: "(string \<times> json) list \<Rightarrow> json result" where
  "first_schema [] = Inr JNull"
| "first_schema ((content_type, content_data) # rest) =
     bindE (py_in ''schema'' content_data) (\<lambda>has_schema.
       if has_schema then py_getitem content_data ''schema'' else first_schema rest)"

definition get_request_body_schema ::
  "(string \<Rightarrow> string) \<Rightarrow> json \<Rightarrow> string \<Rightarrow> string \<Rightarrow> json result" where
  "get_request_body_schema lower spec path method =
     catch_key_type
       (bindE (operation_at spec path (lower method)) (\<lambda>operation.
        bindE (py_get operation ''requestBody'' (JObj [])) (\<lambda>request_body.
        bindE (py_get request_body ''content'' (JObj [])) (\<lambda>content.
        bindE (py_items content) first_schema))))
       JNull"




subsection \<open>resolve_schema_reference\<close>

text \<open>
  The argument is a Python value; only a string has \<open>startswith\<close>, and that call is
  outside the \<open>try\<close>.  The loop \<^verbatim>\<open>for part in parts: obj = obj[part]\<close> is \<open>descend\<close>.
\<close>

fun descend :: "json \<Rightarrow> string list \<Rightarrow> json result" where
  "descend obj [] = Inr obj"
| "descend obj (part # parts) = bindE (py_getitem obj part) (\<lambda>obj'. descend obj' parts)"

fun resolve_schema_reference :: "json \<Rightarrow> json \<Rightarrow> json result" where
  "resolve_schema_reference spec (JStr ref) =
     (if \<not> prefix ''#/'' ref then Inr JNull
      else catch_key_type (descend spec (py_split CHR ''/'' (drop 2 ref))) JNull)"
| "resolve_schema_reference spec _ = Inl AttributeError"

section \<open>OpenAPIExporter\<close>

subsection \<open>export_endpoints_csv\<close>

text \<open>
  The file is the list of the lines handed to the CSV writer: the header with the field
  names, then one row per \<open>writerow\<close>; a value that is not a string is kept as it is
  (the writer prints it).  The function yields the file it has written so far (\<open>None\<close>
  when it was never opened) and the exception that stopped it, if any.
\<close>

record csv_row =
  Method :: string
  Path :: string
  Summary :: json
  Tags :: string
  Deprecated :: json

datatype csv_line = Header "string list" | Row csv_row

fun write_rows :: "endpoint list \<Rightarrow> csv_line list \<Rightarrow> csv_line list \<times> error option" where
  "write_rows [] out = (out, None)"
| "write_rows (ep # eps) out =
     (case str_join '', '' (ep_tags ep) of
        Inl e \<Rightarrow> (out, Some e)
      | Inr joined \<Rightarrow>
          write_rows eps
            (out @ [Row \<lparr> Method = ep_method ep, Path = ep_path ep, Summary = ep_summary ep,
                          Tags = joined, Deprecated = ep_deprecated ep \<rparr>]))"

definition export_endpoints_csv :: "json \<Rightarrow> csv_line list option \<times> error option" where
  "export_endpoints_csv spec =
     (case list_all_endpoints spec of
        Inl e \<Rightarrow> (None, Some e)
      | Inr endpoints \<Rightarrow>
          (case write_rows endpoints
                  [Header [''Method'', ''Path'', ''Summary'', ''Tags'', ''Deprecated'']] of
             (out, err) \<Rightarrow> (Some out, err)))"

subsection \<open>generate_postman_collection\<close>

record query_param =
  q_key :: json
  q_value :: string
  q_disabled :: bool

record postman_url =
  url_raw :: string
  url_host :: "string list"
  url_path :: "string list"
  url_query :: "query_param list option"

record postman_item =
  item_name :: json
  request_method :: string
  request_url :: postman_url

record collection =
  info_name :: json
  info_description :: json
  info_version :: json
  item :: "postman_item list"
  variable :: "(string \<times> json) list"

text \<open>\<^verbatim>\<open>x[0]\<close>\<close>

fun py_index0 :: "json \<Rightarrow> json result" where
  "py_index0 (JList []) = Inl IndexError"
| "py_index0 (JList (x # xs)) = Inr x"
| "py_index0 (JStr s) = (case utf8_chars s of [] \<Rightarrow> Inl IndexError | u # us \<Rightarrow> Inr (JStr u))"
| "py_index0 (JObj kvs) = Inl KeyError"
| "py_index0 _ = Inl TypeError"

text \<open>The method names of the collection's loop.\<close>

definition POSTMAN_METHODS :: "string list" where
  "POSTMAN_METHODS = [''get'', ''post'', ''put'', ''delete'', ''patch'']"

text \<open>The comprehension over \<^verbatim>\<open>operation["parameters"]\<close>.\<close>

fun query_params :: "json list \<Rightarrow> query_param list result" where
  "query_params [] = Inr []"
| "query_params (p # ps) =
     bindE (py_get p ''in'' JNull) (\<lambda>loc.
       if loc = JStr ''query'' then
         bindE (py_getitem p ''name'') (\<lambda>nm.
         bindE (py_get p ''required'' (JBool False)) (\<lambda>req.
         bindE (query_params ps) (\<lambda>qs.
           Inr (\<lparr> q_key = nm, q_value = [], q_disabled = (\<not> truthy req) \<rparr> # qs))))
       else query_params ps)"

definition postman_request :: "string \<Rightarrow> string \<Rightarrow> json \<Rightarrow> postman_item result" where
  "postman_request path m operation =
     bindE (py_get operation ''summary'' (JStr (upper m @ '' '' @ path))) (\<lambda>nm.
     bindE (py_get operation ''parameters'' JNull) (\<lambda>params.
     bindE (if truthy params then
              bindE (py_getitem operation ''parameters'') (\<lambda>params'.
              bindE (py_iter params') (\<lambda>ps.
              bindE (query_params ps) (\<lambda>qs. Inr (Some qs))))
            else Inr None) (\<lambda>q.
       Inr \<lparr> item_name = nm, request_method = upper m,
             request_url = \<lparr> url_raw = ''{{base_url}}'' @ path, url_host = [''{{base_url}}''],
                             url_path = drop 1 (py_split CHR ''/'' path), url_query = q \<rparr> \<rparr>)))"

fun postman_methods :: "string \<Rightarrow> json \<Rightarrow> string list \<Rightarrow> postman_item list
                          \<Rightarrow> postman_item list result" where
  "postman_methods path path_item [] items = Inr items"
| "postman_methods path path_item (m # ms) items =
     bindE (py_in m path_item) (\<lambda>present.
       if present then
         bindE (py_getitem path_item m) (\<lambda>operation.
         bindE (postman_request path m operation) (\<lambda>request.
           postman_methods path path_item ms (items @ [request])))
       else postman_methods path path_item ms items)"

fun postman_paths :: "(string \<times> json) list \<Rightarrow> postman_item list \<Rightarrow> postman_item list result" where
  "postman_paths [] items = Inr items"
| "postman_paths ((path, path_item) # rest) items =
     bindE (postman_methods path path_item POSTMAN_METHODS items) (\<lambda>items'.
       postman_paths rest items')"

text \<open>
  The collection that is dumped to the output file; an exception before the dump leaves no
  file.
\<close>

definition generate_postman_collection :: "json \<Rightarrow> collection result" where
  "generate_postman_collection spec =
     bindE (py_get spec ''info'' (JObj [])) (\<lambda>info.
     bindE (py_get spec ''servers'' (JList [])) (\<lambda>servers.
     bindE (if truthy servers
            then bindE (py_index0 servers) (\<lambda>server. py_getitem server ''url'')
            else Inr (JStr [])) (\<lambda>base_url.
     bindE (py_get info ''title'' (JStr ''API'')) (\<lambda>nm.
     bindE (py_get info ''description'' (JStr [])) (\<lambda>descr.
     bindE (py_get info ''version'' (JStr ''1.0.0'')) (\<lambda>ver.
     bindE (py_get spec ''paths'' (JObj [])) (\<lambda>paths.
     bindE (py_items paths) (\<lambda>path_items.
     bindE (postman_paths path_items []) (\<lambda>items.
       Inr \<lparr> info_name = nm, info_description = descr, info_version = ver,
             item = items,
             variable = (if truthy base_url then [(''base_url'', base_url)] else []) \<rparr>)))))))))"

section \<open>Reference definitions and example documents\<close>

text \<open>
  The validator's checks as the specification lists them, on a mapping: a version key, then
  \<open>info\<close> (present and a mapping, with its title and version), then \<open>paths\<close>; the
  messages of all failed checks, in that order.
\<close>

definition validate_checks :: "(string \<times> json) list \<Rightarrow> string list" where
  "validate_checks kvs =
     (if ''openapi'' \<in> set (map fst kvs) \<or> ''swagger'' \<in> set (map fst kvs) then []
      else [''Missing 'openapi' or 'swagger' field'']) @
     (case map_of kvs ''info'' of
        None \<Rightarrow> [''Missing 'info' object'']
      | Some (JObj info) \<Rightarrow>
          (if ''title'' \<in> set (map fst info) then [] else [''Missing 'info.title'' @ [CHR 0x27]]) @
          (if ''version'' \<in> set (map fst info) then [] else [''Missing 'info.version'' @ [CHR 0x27]])
      | Some _ \<Rightarrow> [CHR 0x27 # ''info' must be an object'']) @
     (if ''paths'' \<in> set (map fst kvs) then [] else [''Missing 'paths' object''])"

text \<open>A key with a positive count in a counting dictionary.\<close>

definition counted :: "json \<Rightarrow> (json \<times> nat) list \<Rightarrow> bool" where
  "counted k tc = list_ex (\<lambda>kn. fst kn = k \<and> 0 < snd kn) tc"

text \<open>
  The document of the end-to-end scenario: one path \<open>/pets\<close> with \<open>get\<close> (tag
  \<open>pets\<close>, summary \<open>List pets\<close>) and \<open>post\<close> (tag \<open>pets\<close>, a JSON request body).
\<close>

definition pets_doc :: json where
  "pets_doc = JObj [(''paths'', JObj [(''/pets'', JObj [
      (''get'', JObj [(''tags'', JList [JStr ''pets'']), (''summary'', JStr ''List pets'')]),
      (''post'', JObj [(''tags'', JList [JStr ''pets'']),
         (''requestBody'', JObj [(''content'', JObj [(''application/json'',
             JObj [(''schema'', JObj [(''type'', JStr ''object'')])])])])])])])]"

text \<open>A document whose only operation declares no tags.\<close>

definition untagged_doc :: json where
  "untagged_doc = JObj [(''paths'', JObj [(''/a'', JObj [(''get'', JObj [])])])]"

text \<open>
  The object that a list of keys designates in a tree, in the specification's words: each
  segment is a mapping key to descend into.
\<close>

fun subtree_at :: "json \<Rightarrow> string list \<Rightarrow> json option" where
  "subtree_at v [] = Some v"
| "subtree_at (JObj kvs) (k # ks) =
     (case map_of kvs k of None \<Rightarrow> None | Some v \<Rightarrow> subtree_at v ks)"
| "subtree_at _ (k # ks) = None"

text \<open>Schema \<open>A\<close> refers to schema \<open>B\<close>, and \<open>B\<close> back to \<open>A\<close>.\<close>

definition cyclic_doc :: json where
  "cyclic_doc = JObj [(''components'', JObj [(''schemas'', JObj [
      (''A'', JObj [(''$ref'', JStr ''#/components/schemas/B'')]),
      (''B'', JObj [(''$ref'', JStr ''#/components/schemas/A'')])])])]"

text \<open>A document with one inline schema.\<close>

definition inline_doc :: json where
  "inline_doc = JObj [(''components'', JObj [(''schemas'', JObj [
      (''Pet'', JObj [(''type'', JStr ''object'')])])])]"

text \<open>
  The schema of the first-declared content type that carries one, and of the last-declared
  one, in a content mapping of mappings.
\<close>

fun first_declared_schema :: "(string \<times> json) list \<Rightarrow> json option" where
  "first_declared_schema [] = None"
| "first_declared_schema ((content_type, JObj content_data) # rest) =
     (case map_of content_data ''schema'' of
        None \<Rightarrow> first_declared_schema rest | Some schema \<Rightarrow> Some schema)"
| "first_declared_schema (_ # rest) = first_declared_schema rest"



text \<open>
  An operation that declares its request body and its \<open>200\<close> response under two content
  types.
\<close>

definition two_types_doc :: json where
  "two_types_doc = JObj [(''paths'', JObj [(''/pets'', JObj [(''post'', JObj [
      (''requestBody'', JObj [(''content'', JObj [
          (''application/json'', JObj [(''schema'', JObj [(''type'', JStr ''object'')])]),
          (''application/xml'', JObj [(''schema'', JObj [(''type'', JStr ''string'')])])])]),
      (''responses'', JObj [
          (''200'', JObj [(''content'', JObj [
              (''application/json'', JObj [(''schema'', JObj [(''type'', JStr ''object'')])]),
              (''application/xml'', JObj [(''schema'', JObj [(''type'', JStr ''string'')])])])]),
          (''404'', JObj [(''description'', JStr ''missing'')])])])])])]"

text \<open>A CSV row that renders an endpoint: the five columns, the tags joined by \<open>", "\<close>.\<close>

definition row_of :: "endpoint \<Rightarrow> csv_row \<Rightarrow> bool" where
  "row_of ep r =
     (Method r = ep_method ep \<and> Path r = ep_path ep \<and> Summary r = ep_summary ep
      \<and> str_join '', '' (ep_tags ep) = Inr (Tags r) \<and> Deprecated r = ep_deprecated ep)"

text \<open>A document whose only operations are \<open>head\<close> and \<open>options\<close>.\<close>

definition head_doc :: json where
  "head_doc = JObj [(''paths'', JObj [(''/status'', JObj [
      (''head'', JObj [(''summary'', JStr ''Ping'')]), (''options'', JObj [])])])]"

text \<open>A tag list that is a list of strings.\<close>

fun is_str :: "json \<Rightarrow> bool" where
  "is_str (JStr s) = True"
| "is_str _ = False"

definition string_list :: "json \<Rightarrow> bool" where
  "string_list x = (case x of JList xs \<Rightarrow> list_all is_str xs | _ \<Rightarrow> False)"

text \<open>
  Operations with a request body \<open>null\<close>, an operation \<open>null\<close>, and a request body whose
  content is \<open>null\<close>.
\<close>

definition broken_body_doc :: json where
  "broken_body_doc = JObj [(''paths'', JObj [
      (''/a'', JObj [(''post'', JObj [(''requestBody'', JNull)])]),
      (''/b'', JObj [(''post'', JNull)]),
      (''/c'', JObj [(''post'', JObj [(''requestBody'', JObj [(''content'', JNull)])])])])]"


section \<open>Facts about the Python operations\<close>

lemma bindE_Inr_iff: "bindE m f = Inr y \<longleftrightarrow> (\<exists>x. m = Inr x \<and> f x = Inr y)"
  by (cases m) (simp_all add: bindE_def)

lemma bindE_Inr [simp]: "bindE (Inr x) f = f x"
  by (simp add: bindE_def)

lemma bindE_Inl [simp]: "bindE (Inl e) f = Inl e"
  by (simp add: bindE_def)

lemma py_get_Inr_dict: "py_get x k d = Inr v \<Longrightarrow> is_dict x"
  by (cases x) simp_all

lemma py_get_total: "is_dict x \<Longrightarrow> \<exists>v. py_get x k d = Inr v"
  by (cases x) (simp_all split: option.splits)

lemma uppers:
  "upper ''get'' = ''GET''" "upper ''post'' = ''POST''" "upper ''put'' = ''PUT''"
  "upper ''delete'' = ''DELETE''" "upper ''patch'' = ''PATCH''" "upper ''head'' = ''HEAD''"
  "upper ''options'' = ''OPTIONS''"
  by (simp_all add: upper_def upper_char_def)

section \<open>The validator\<close>

lemma check_info_mapping:
  "check_info (JObj kvs) =
     Inr (case map_of kvs ''info'' of
        None \<Rightarrow> [''Missing 'info' object'']
      | Some (JObj info) \<Rightarrow>
          (if ''title'' \<in> set (map fst info) then [] else [''Missing 'info.title'' @ [CHR 0x27]]) @
          (if ''version'' \<in> set (map fst info) then [] else [''Missing 'info.version'' @ [CHR 0x27]])
      | Some _ \<Rightarrow> [CHR 0x27 # ''info' must be an object''])"
proof (cases "map_of kvs ''info''")
  case None
  then have "''info'' \<notin> set (map fst kvs)" by (simp add: map_of_eq_None_iff)
  with None show ?thesis by (simp add: check_info_def)
next
  case (Some v)
  then have "''info'' \<in> set (map fst kvs)"
    by (metis map_of_eq_None_iff option.distinct(1) set_map)
  with Some show ?thesis by (cases v) (simp_all add: check_info_def)
qed

lemma is_valid_openapi_mapping:
  "is_valid_openapi (JObj kvs) = Inr (validate_checks kvs = [], validate_checks kvs)"
  by (simp add: is_valid_openapi_def check_version_key_def check_paths_def check_info_mapping
      validate_checks_def Let_def)

text \<open>
  C5, as the code has it.  On every tree whose top level is a mapping, the validator returns
  (it raises nothing) the pair of \<open>errors = []\<close> and \<open>errors\<close>, where \<open>errors\<close> holds
  the message of every failed check in the order of the checks: the version key, \<open>info\<close>
  present and a mapping, \<open>info.title\<close> and \<open>info.version\<close> (looked at when \<open>info\<close> is
  a mapping), \<open>paths\<close>.  The three example documents give: valid with no error; invalid
  with the message that names \<open>openapi\<close> and \<open>swagger\<close>; invalid with the message that
  names \<open>info\<close>.
\<close>

theorem validate_mapping:
  "is_valid_openapi (JObj kvs) = Inr (validate_checks kvs = [], validate_checks kvs)
   \<and> is_valid_openapi (JObj [(''openapi'', JStr ''3.0.0''),
         (''info'', JObj [(''title'', JStr ''T''), (''version'', JStr ''1'')]),
         (''paths'', JObj [])]) = Inr (True, [])
   \<and> is_valid_openapi (JObj [
         (''info'', JObj [(''title'', JStr ''T''), (''version'', JStr ''1'')]),
         (''paths'', JObj [])]) = Inr (False, [''Missing 'openapi' or 'swagger' field''])
   \<and> is_valid_openapi (JObj [(''openapi'', JStr ''3.0.0''), (''paths'', JObj [])])
       = Inr (False, [''Missing 'info' object''])"
  by (simp add: is_valid_openapi_mapping validate_checks_def)

theorem validate_mapping_witness:
  "is_valid_openapi (JObj [(''swagger'', JStr ''2.0''), (''info'', JObj [(''title'', JStr ''T'')])])
     = Inr (False, [''Missing 'info.version'' @ [CHR 0x27], ''Missing 'paths' object''])"
  using validate_mapping [of "[(''swagger'', JStr ''2.0''), (''info'', JObj [(''title'', JStr ''T'')])]"]
  by (simp add: validate_checks_def)

text \<open>
  C5 as stated (for every input tree) fails: on the tree \<open>null\<close>, which an empty YAML file
  loads to, the first membership test raises \<open>TypeError\<close>.
\<close>

theorem validate_null_raises: "is_valid_openapi JNull = Inl TypeError"
  by (simp add: is_valid_openapi_def check_version_key_def)

section \<open>Statistics and extraction walk the same operations\<close>

lemma sum_incr: "sum_list (map snd (incr eq d k)) = Suc (sum_list (map snd d))"
  by (induction eq d k rule: incr.induct) simp_all

lemma stats_methods_endpoints:
  assumes "stats_methods path_item ms (n, mc, tc) = Inr (n', mc', tc')"
    and "n = length eps" and "sum_list (map snd mc) = n"
  shows "\<exists>eps'. endpoints_methods path path_item ms eps = Inr eps'
           \<and> n' = length eps' \<and> sum_list (map snd mc') = n'"
  using assms
proof (induction ms arbitrary: n mc tc eps)
  case Nil
  then show ?case by simp
next
  case (Cons m ms)
  from Cons.prems(1) obtain present where p: "py_in m path_item = Inr present"
    by (auto simp: bindE_Inr_iff)
  show ?case
  proof (cases present)
    case False
    with p Cons.prems have "stats_methods path_item ms (n, mc, tc) = Inr (n', mc', tc')"
      by simp
    from Cons.IH[OF this Cons.prems(2,3)] p False show ?thesis by simp
  next
    case True
    with p Cons.prems(1) obtain operation tgs tc1 where
      op: "py_getitem path_item m = Inr operation"
      and tg: "py_get operation ''tags'' (JList [JStr ''untagged'']) = Inr tgs"
      and rest: "stats_methods path_item ms (n + 1, incr (=) mc m, tc1) = Inr (n', mc', tc')"
      by (auto simp: bindE_Inr_iff)
    from tg have d: "is_dict operation" by (rule py_get_Inr_dict)
    obtain s t dp where g:
      "py_get operation ''summary'' (JStr []) = Inr s"
      "py_get operation ''tags'' (JList []) = Inr t"
      "py_get operation ''deprecated'' (JBool False) = Inr dp"
      using py_get_total[OF d] by metis
    let ?eps = "eps @ [\<lparr> ep_method = upper m, ep_path = path, ep_summary = s,
                             ep_tags = t, ep_deprecated = dp \<rparr>]"
    have "n + 1 = length ?eps" using Cons.prems(2) by simp
    moreover have "sum_list (map snd (incr (=) mc m)) = n + 1"
      using Cons.prems(3) by (simp add: sum_incr)
    ultimately have "\<exists>eps'. endpoints_methods path path_item ms ?eps = Inr eps'
           \<and> n' = length eps' \<and> sum_list (map snd mc') = n'"
      using Cons.IH[OF rest] by blast
    with p True op g show ?thesis by simp
  qed
qed

lemma stats_paths_endpoints:
  assumes "stats_paths items (n, mc, tc) = Inr (n', mc', tc')"
    and "n = length eps" and "sum_list (map snd mc) = n"
  shows "\<exists>eps'. endpoints_paths items eps = Inr eps'
           \<and> n' = length eps' \<and> sum_list (map snd mc') = n'"
  using assms
proof (induction items arbitrary: n mc tc eps)
  case Nil
  then show ?case by simp
next
  case (Cons it items)
  obtain path path_item where it: "it = (path, path_item)" by (cases it)
  from Cons.prems(1) it obtain n1 mc1 tc1 where
    a: "stats_methods path_item METHODS (n, mc, tc) = Inr (n1, mc1, tc1)"
    and b: "stats_paths items (n1, mc1, tc1) = Inr (n', mc', tc')"
    by (auto simp: bindE_Inr_iff)
  from stats_methods_endpoints[OF a Cons.prems(2,3)] obtain eps1 where
    e: "endpoints_methods path path_item METHODS eps = Inr eps1"
       "n1 = length eps1" "sum_list (map snd mc1) = n1" by blast
  from Cons.IH[OF b e(2,3)] e(1) it show ?case by simp
qed

lemma get_statistics_walk:
  assumes "get_statistics spec = Inr st"
  shows "\<exists>paths path_items tc.
           py_get spec ''paths'' (JObj []) = Inr paths \<and> py_items paths = Inr path_items
         \<and> stats_paths path_items (0, [], []) = Inr (total_endpoints st, methods st, tc) \<and> tags st = tc"
  using assms unfolding get_statistics_def
  by (auto simp: bindE_Inr_iff split: prod.splits)

text \<open>
  C1.  Whenever \<open>get_statistics\<close> returns statistics for a document, \<open>list_all_endpoints\<close>
  returns too, the per-method counts add up to \<open>total_endpoints\<close>, and \<open>total_endpoints\<close>
  is the number of endpoints extracted.
\<close>

theorem statistics_consistent:
  assumes "get_statistics spec = Inr st"
  shows "\<exists>eps. list_all_endpoints spec = Inr eps
           \<and> sum_list (map snd (methods st)) = total_endpoints st
           \<and> total_endpoints st = length eps"
proof -
  from get_statistics_walk[OF assms] obtain paths path_items tc where
    w: "py_get spec ''paths'' (JObj []) = Inr paths" "py_items paths = Inr path_items"
       "stats_paths path_items (0, [], []) = Inr (total_endpoints st, methods st, tc)"
    by blast
  from stats_paths_endpoints[OF w(3), of "[]"] obtain eps' where
    "endpoints_paths path_items [] = Inr eps'" "total_endpoints st = length eps'"
    "sum_list (map snd (methods st)) = total_endpoints st" by auto
  with w(1,2) show ?thesis by (simp add: list_all_endpoints_def)
qed

lemma pets_statistics:
  "get_statistics pets_doc = Inr \<lparr> title = JStr ''Unknown'', version = JStr ''Unknown'',
     total_endpoints = 2, methods = [(''get'', 1), (''post'', 1)], tags = [(JStr ''pets'', 2)],
     schemas = 0, security_schemes = 0 \<rparr>"
  by (simp add: get_statistics_def pets_doc_def METHODS_def)

lemma pets_endpoints:
  "list_all_endpoints pets_doc = Inr [
     \<lparr> ep_method = ''GET'', ep_path = ''/pets'', ep_summary = JStr ''List pets'',
       ep_tags = JList [JStr ''pets''], ep_deprecated = JBool False \<rparr>,
     \<lparr> ep_method = ''POST'', ep_path = ''/pets'', ep_summary = JStr [],
       ep_tags = JList [JStr ''pets''], ep_deprecated = JBool False \<rparr>]"
  by (simp add: list_all_endpoints_def pets_doc_def METHODS_def uppers)

theorem statistics_consistent_witness:
  "get_statistics pets_doc = Inr \<lparr> title = JStr ''Unknown'', version = JStr ''Unknown'',
     total_endpoints = 2, methods = [(''get'', 1), (''post'', 1)], tags = [(JStr ''pets'', 2)],
     schemas = 0, security_schemes = 0 \<rparr>
   \<and> (\<exists>eps. list_all_endpoints pets_doc = Inr eps
         \<and> sum_list (map snd [(''get'', 1::nat), (''post'', 1)]) = 2 \<and> 2 = length eps)"
  using statistics_consistent [OF pets_statistics] pets_statistics by simp

section \<open>Searching by tag\<close>

lemma by_tag_methods_le:
  assumes "by_tag_methods tag path path_item ms xs = Inr xs'" and "length xs \<le> length ys"
  shows "\<exists>ys'. endpoints_methods path path_item ms ys = Inr ys' \<and> length xs' \<le> length ys'"
  using assms
proof (induction ms arbitrary: xs ys)
  case Nil
  then show ?case by simp
next
  case (Cons m ms)
  from Cons.prems(1) obtain present where p: "py_in m path_item = Inr present"
    by (auto simp: bindE_Inr_iff)
  show ?case
  proof (cases present)
    case False
    with p Cons.prems(1) have "by_tag_methods tag path path_item ms xs = Inr xs'" by simp
    from Cons.IH[OF this Cons.prems(2)] p False show ?thesis by simp
  next
    case True
    with p Cons.prems(1) obtain operation tgs tagged where
      op: "py_getitem path_item m = Inr operation"
      and tg: "py_get operation ''tags'' (JList []) = Inr tgs"
      and ti: "py_in tag tgs = Inr tagged"
      by (auto simp: bindE_Inr_iff)
    from tg have d: "is_dict operation" by (rule py_get_Inr_dict)
    obtain s dp de where g:
      "py_get operation ''summary'' (JStr []) = Inr s"
      "py_get operation ''deprecated'' (JBool False) = Inr dp"
      "py_get operation ''description'' (JStr []) = Inr de"
      using py_get_total[OF d] by metis
    let ?ys = "ys @ [\<lparr> ep_method = upper m, ep_path = path, ep_summary = s,
                           ep_tags = tgs, ep_deprecated = dp \<rparr>]"
    let ?xs = "if tagged then xs @ [\<lparr> te_method = upper m, te_path = path,
                                 te_summary = s, te_description = de \<rparr>] else xs"
    have r: "by_tag_methods tag path path_item ms ?xs = Inr xs'"
      using Cons.prems(1) p True op tg ti g by (simp split: if_splits)
    have "length ?xs \<le> length ?ys" using Cons.prems(2) by simp
    from Cons.IH[OF r this] p True op tg g show ?thesis by simp
  qed
qed

lemma by_tag_paths_le:
  assumes "by_tag_paths tag items xs = Inr xs'" and "length xs \<le> length ys"
  shows "\<exists>ys'. endpoints_paths items ys = Inr ys' \<and> length xs' \<le> length ys'"
  using assms
proof (induction items arbitrary: xs ys)
  case Nil
  then show ?case by simp
next
  case (Cons it items)
  obtain path path_item where it: "it = (path, path_item)" by (cases it)
  from Cons.prems(1) it obtain xs1 where
    a: "by_tag_methods tag path path_item METHODS xs = Inr xs1"
    and b: "by_tag_paths tag items xs1 = Inr xs'"
    by (auto simp: bindE_Inr_iff)
  from by_tag_methods_le[OF a Cons.prems(2)] obtain ys1 where
    e: "endpoints_methods path path_item METHODS ys = Inr ys1" "length xs1 \<le> length ys1"
    by blast
  from Cons.IH[OF b e(2)] e(1) it show ?case by simp
qed

text \<open>
  C9.  Whenever \<open>find_endpoints_by_tag\<close> returns for a document and a tag,
  \<open>list_all_endpoints\<close> returns too and the search result is no longer than the list of all
  endpoints.
\<close>

theorem find_by_tag_le_all:
  assumes "find_endpoints_by_tag spec tag = Inr found"
  shows "\<exists>eps. list_all_endpoints spec = Inr eps \<and> length found \<le> length eps"
proof -
  from assms obtain paths path_items where
    w: "py_get spec ''paths'' (JObj []) = Inr paths" "py_items paths = Inr path_items"
       "by_tag_paths tag path_items [] = Inr found"
    by (auto simp: find_endpoints_by_tag_def bindE_Inr_iff)
  from by_tag_paths_le[OF w(3), of "[]"] obtain eps' where
    "endpoints_paths path_items [] = Inr eps'" "length found \<le> length eps'" by auto
  with w(1,2) show ?thesis by (simp add: list_all_endpoints_def)
qed

lemma pets_by_tag:
  "find_endpoints_by_tag pets_doc ''pets'' = Inr [
     \<lparr> te_method = ''GET'', te_path = ''/pets'', te_summary = JStr ''List pets'',
       te_description = JStr [] \<rparr>,
     \<lparr> te_method = ''POST'', te_path = ''/pets'', te_summary = JStr [],
       te_description = JStr [] \<rparr>]"
  by (simp add: find_endpoints_by_tag_def pets_doc_def METHODS_def uppers)

theorem find_by_tag_le_all_witness:
  "find_endpoints_by_tag pets_doc ''pets'' = Inr [
     \<lparr> te_method = ''GET'', te_path = ''/pets'', te_summary = JStr ''List pets'',
       te_description = JStr [] \<rparr>,
     \<lparr> te_method = ''POST'', te_path = ''/pets'', te_summary = JStr [],
       te_description = JStr [] \<rparr>]
   \<and> (\<exists>eps. list_all_endpoints pets_doc = Inr eps \<and> 2 \<le> length eps)"
  using find_by_tag_le_all [OF pets_by_tag] pets_by_tag by (simp add: numeral_2_eq_2)

section \<open>The default tag bucket\<close>

lemma key_eq_JStr: "key_eq k (JStr s) \<longleftrightarrow> k = JStr s"
  by (cases k) auto

lemma counted_incr_keeps: "counted k tc \<Longrightarrow> counted k (incr eq tc t)"
  by (induction eq tc t rule: incr.induct) (auto simp: counted_def)

lemma counted_incr_adds: "counted (JStr s) (incr key_eq tc (JStr s))"
  by (induction tc) (auto simp: counted_def key_eq_JStr)

lemma count_tags_keeps: "count_tags ts tc = Inr tc' \<Longrightarrow> counted k tc \<Longrightarrow> counted k tc'"
  by (induction ts arbitrary: tc) (auto simp: counted_incr_keeps split: if_splits)

lemma stats_methods_step:
  assumes "stats_methods path_item (m # ms) (n, mc, tc) = Inr r" and "py_in m path_item = Inr True"
  shows "\<exists>operation tgs ts tc1. py_getitem path_item m = Inr operation
       \<and> py_get operation ''tags'' (JList [JStr ''untagged'']) = Inr tgs \<and> py_iter tgs = Inr ts
       \<and> count_tags ts tc = Inr tc1
       \<and> stats_methods path_item ms (n + 1, incr (=) mc m, tc1) = Inr r"
  using assms by (auto simp: bindE_Inr_iff)

lemma stats_methods_keeps:
  assumes "stats_methods path_item ms (n, mc, tc) = Inr (n', mc', tc')" and "counted k tc"
  shows "counted k tc'"
  using assms
proof (induction ms arbitrary: n mc tc)
  case Nil
  then show ?case by simp
next
  case (Cons m ms)
  from Cons.prems(1) obtain present where p: "py_in m path_item = Inr present"
    by (auto simp: bindE_Inr_iff)
  show ?case
  proof (cases present)
    case False
    with p Cons.prems(1) have "stats_methods path_item ms (n, mc, tc) = Inr (n', mc', tc')" by simp
    from Cons.IH[OF this Cons.prems(2)] show ?thesis .
  next
    case True
    from p True have pt: "py_in m path_item = Inr True" by simp
    from stats_methods_step[OF Cons.prems(1) pt] obtain ts tc1 where
      c: "count_tags ts tc = Inr tc1"
      and r: "stats_methods path_item ms (n + 1, incr (=) mc m, tc1) = Inr (n', mc', tc')"
      by blast
    from count_tags_keeps[OF c Cons.prems(2)] have "counted k tc1" .
    from Cons.IH[OF r this] show ?thesis .
  qed
qed

lemma stats_methods_untagged:
  assumes "stats_methods path_item ms (n, mc, tc) = Inr (n', mc', tc')"
    and "m \<in> set ms" and "py_in m path_item = Inr True"
    and "py_getitem path_item m = Inr (JObj operation)" and "map_of operation ''tags'' = None"
  shows "counted (JStr ''untagged'') tc'"
  using assms(1,2)
proof (induction ms arbitrary: n mc tc)
  case Nil
  then show ?case by simp
next
  case (Cons a ms)
  show ?case
  proof (cases "a = m")
    case True
    from stats_methods_step[OF Cons.prems(1)[unfolded True] assms(3)] assms(4,5)
    obtain tc1 where c: "count_tags [JStr ''untagged''] tc = Inr tc1"
      and r: "stats_methods path_item ms (n + 1, incr (=) mc m, tc1) = Inr (n', mc', tc')"
      by auto
    from c have "counted (JStr ''untagged'') tc1"
      using counted_incr_adds[of "''untagged''" tc] by simp
    from stats_methods_keeps[OF r this] show ?thesis .
  next
    case False
    with Cons.prems(2) have m: "m \<in> set ms" by simp
    from Cons.prems(1) obtain present where p: "py_in a path_item = Inr present"
      by (auto simp: bindE_Inr_iff)
    show ?thesis
    proof (cases present)
      case False
      with p Cons.prems(1) have "stats_methods path_item ms (n, mc, tc) = Inr (n', mc', tc')" by simp
      from Cons.IH[OF this m] show ?thesis .
    next
      case True
      from p True have pt: "py_in a path_item = Inr True" by simp
      from stats_methods_step[OF Cons.prems(1) pt] obtain tc1 where
        "stats_methods path_item ms (n + 1, incr (=) mc a, tc1) = Inr (n', mc', tc')" by blast
      from Cons.IH[OF this m] show ?thesis .
    qed
  qed
qed

lemma stats_paths_keeps:
  assumes "stats_paths items (n, mc, tc) = Inr (n', mc', tc')" and "counted k tc"
  shows "counted k tc'"
  using assms
proof (induction items arbitrary: n mc tc)
  case Nil
  then show ?case by simp
next
  case (Cons it items)
  obtain path path_item where it: "it = (path, path_item)" by (cases it)
  from Cons.prems(1) it obtain n1 mc1 tc1 where
    a: "stats_methods path_item METHODS (n, mc, tc) = Inr (n1, mc1, tc1)"
    and b: "stats_paths items (n1, mc1, tc1) = Inr (n', mc', tc')"
    by (auto simp: bindE_Inr_iff)
  from Cons.IH[OF b stats_methods_keeps[OF a Cons.prems(2)]] show ?case .
qed

lemma stats_paths_untagged:
  assumes "stats_paths items (n, mc, tc) = Inr (n', mc', tc')"
    and "(path, path_item) \<in> set items"
    and "m \<in> set METHODS" and "py_in m path_item = Inr True"
    and "py_getitem path_item m = Inr (JObj operation)" and "map_of operation ''tags'' = None"
  shows "counted (JStr ''untagged'') tc'"
  using assms(1,2)
proof (induction items arbitrary: n mc tc)
  case Nil
  then show ?case by simp
next
  case (Cons it items)
  obtain p pi where it: "it = (p, pi)" by (cases it)
  from Cons.prems(1) it obtain n1 mc1 tc1 where
    a: "stats_methods pi METHODS (n, mc, tc) = Inr (n1, mc1, tc1)"
    and b: "stats_paths items (n1, mc1, tc1) = Inr (n', mc', tc')"
    by (auto simp: bindE_Inr_iff)
  show ?case
  proof (cases "it = (path, path_item)")
    case True
    with it a have "stats_methods path_item METHODS (n, mc, tc) = Inr (n1, mc1, tc1)" by simp
    from stats_methods_untagged[OF this assms(3-6)] have "counted (JStr ''untagged'') tc1" .
    from stats_paths_keeps[OF b this] show ?thesis .
  next
    case False
    with Cons.prems(2) have "(path, path_item) \<in> set items" by simp
    from Cons.IH[OF b this] show ?thesis .
  qed
qed


lemma endpoints_methods_step:
  assumes "endpoints_methods path path_item (m # ms) eps = Inr r" and "py_in m path_item = Inr True"
  shows "\<exists>operation s t d. py_getitem path_item m = Inr operation
       \<and> py_get operation ''summary'' (JStr []) = Inr s
       \<and> py_get operation ''tags'' (JList []) = Inr t
       \<and> py_get operation ''deprecated'' (JBool False) = Inr d
       \<and> endpoints_methods path path_item ms
            (eps @ [\<lparr> ep_method = upper m, ep_path = path, ep_summary = s,
                      ep_tags = t, ep_deprecated = d \<rparr>]) = Inr r"
  using assms by (auto simp: bindE_Inr_iff)

lemma endpoints_methods_mono:
  assumes "endpoints_methods path path_item ms eps = Inr eps'"
  shows "set eps \<subseteq> set eps'"
  using assms
proof (induction ms arbitrary: eps)
  case Nil
  then show ?case by simp
next
  case (Cons m ms)
  from Cons.prems obtain present where p: "py_in m path_item = Inr present"
    by (auto simp: bindE_Inr_iff)
  show ?case
  proof (cases present)
    case False
    with p Cons.prems have "endpoints_methods path path_item ms eps = Inr eps'" by simp
    from Cons.IH[OF this] show ?thesis .
  next
    case True
    from p True have pt: "py_in m path_item = Inr True" by simp
    from endpoints_methods_step[OF Cons.prems pt] obtain e where
      "endpoints_methods path path_item ms (eps @ [e]) = Inr eps'" by blast
    from Cons.IH[OF this] show ?thesis by simp
  qed
qed

lemma endpoints_methods_untagged:
  assumes "endpoints_methods path path_item ms eps = Inr eps'"
    and "m \<in> set ms" and "py_in m path_item = Inr True"
    and "py_getitem path_item m = Inr (JObj operation)" and "map_of operation ''tags'' = None"
  shows "\<exists>ep\<in>set eps'. ep_method ep = upper m \<and> ep_path ep = path \<and> ep_tags ep = JList []"
  using assms(1,2)
proof (induction ms arbitrary: eps)
  case Nil
  then show ?case by simp
next
  case (Cons a ms)
  show ?case
  proof (cases "a = m")
    case True
    from endpoints_methods_step[OF Cons.prems(1)[unfolded True] assms(3)] assms(4,5)
    obtain s d where
      r: "endpoints_methods path path_item ms
            (eps @ [\<lparr> ep_method = upper m, ep_path = path, ep_summary = s,
                      ep_tags = JList [], ep_deprecated = d \<rparr>]) = Inr eps'"
      by auto
    let ?e = "\<lparr> ep_method = upper m, ep_path = path, ep_summary = s,
                      ep_tags = JList [], ep_deprecated = d \<rparr>"
    from endpoints_methods_mono[OF r] have "?e \<in> set eps'" by simp
    moreover have "ep_method ?e = upper m \<and> ep_path ?e = path \<and> ep_tags ?e = JList []"
      by simp
    ultimately show ?thesis by (rule bexI[rotated])
  next
    case False
    with Cons.prems(2) have m: "m \<in> set ms" by simp
    from Cons.prems(1) obtain present where p: "py_in a path_item = Inr present"
      by (auto simp: bindE_Inr_iff)
    show ?thesis
    proof (cases present)
      case False
      with p Cons.prems(1) have "endpoints_methods path path_item ms eps = Inr eps'" by simp
      from Cons.IH[OF this m] show ?thesis .
    next
      case True
      from p True have pt: "py_in a path_item = Inr True" by simp
      from endpoints_methods_step[OF Cons.prems(1) pt] obtain e where
        "endpoints_methods path path_item ms (eps @ [e]) = Inr eps'" by blast
      from Cons.IH[OF this m] show ?thesis .
    qed
  qed
qed

lemma endpoints_paths_mono:
  assumes "endpoints_paths items eps = Inr eps'"
  shows "set eps \<subseteq> set eps'"
  using assms
proof (induction items arbitrary: eps)
  case Nil
  then show ?case by simp
next
  case (Cons it items)
  obtain p pi where it: "it = (p, pi)" by (cases it)
  from Cons.prems it obtain eps1 where
    a: "endpoints_methods p pi METHODS eps = Inr eps1"
    and b: "endpoints_paths items eps1 = Inr eps'"
    by (auto simp: bindE_Inr_iff)
  from endpoints_methods_mono[OF a] Cons.IH[OF b] show ?case by blast
qed

lemma endpoints_paths_untagged:
  assumes "endpoints_paths items eps = Inr eps'"
    and "(path, path_item) \<in> set items"
    and "m \<in> set METHODS" and "py_in m path_item = Inr True"
    and "py_getitem path_item m = Inr (JObj operation)" and "map_of operation ''tags'' = None"
  shows "\<exists>ep\<in>set eps'. ep_method ep = upper m \<and> ep_path ep = path \<and> ep_tags ep = JList []"
  using assms(1,2)
proof (induction items arbitrary: eps)
  case Nil
  then show ?case by simp
next
  case (Cons it items)
  obtain p pi where it: "it = (p, pi)" by (cases it)
  from Cons.prems(1) it obtain eps1 where
    a: "endpoints_methods p pi METHODS eps = Inr eps1"
    and b: "endpoints_paths items eps1 = Inr eps'"
    by (auto simp: bindE_Inr_iff)
  show ?case
  proof (cases "it = (path, path_item)")
    case True
    with it a have "endpoints_methods path path_item METHODS eps = Inr eps1" by simp
    from endpoints_methods_untagged[OF this assms(3-6)] endpoints_paths_mono[OF b]
    show ?thesis by blast
  next
    case False
    with Cons.prems(2) have "(path, path_item) \<in> set items" by simp
    from Cons.IH[OF b this] show ?thesis .
  qed
qed

text \<open>
  C2, as the code has it.  For every operation of the document that has no \<open>tags\<close> key:
  whenever \<open>get_statistics\<close> returns, the default bucket \<open>untagged\<close> has a positive count
  in its \<open>tags\<close>; and whenever \<open>list_all_endpoints\<close> returns, the endpoint of that
  operation is in the list with the empty tag list (extraction copies the declared tags and
  assigns no default).
\<close>

theorem untagged_bucket:
  assumes "py_get spec ''paths'' (JObj []) = Inr (JObj path_items)"
    and "(path, path_item) \<in> set path_items"
    and "m \<in> set METHODS" and "py_in m path_item = Inr True"
    and "py_getitem path_item m = Inr (JObj operation)" and "map_of operation ''tags'' = None"
  shows "(\<forall>st. get_statistics spec = Inr st \<longrightarrow> counted (JStr ''untagged'') (tags st))
       \<and> (\<forall>eps. list_all_endpoints spec = Inr eps \<longrightarrow>
            (\<exists>ep\<in>set eps. ep_method ep = upper m \<and> ep_path ep = path \<and> ep_tags ep = JList []))"
proof (intro conjI allI impI)
  fix st assume "get_statistics spec = Inr st"
  from get_statistics_walk[OF this] assms(1) obtain tc where
    "stats_paths path_items (0, [], []) = Inr (total_endpoints st, methods st, tc)" "tags st = tc"
    by auto
  with stats_paths_untagged[OF _ assms(2-6)] show "counted (JStr ''untagged'') (tags st)"
    by simp
next
  fix eps assume "list_all_endpoints spec = Inr eps"
  with assms(1) obtain eps' where
    e: "endpoints_paths path_items [] = Inr eps'"
    and s: "eps = sort_key (\<lambda>x. (ep_path x, ep_method x)) eps'"
    by (auto simp: list_all_endpoints_def bindE_Inr_iff)
  from endpoints_paths_untagged[OF e assms(2-6)] s
  show "\<exists>ep\<in>set eps. ep_method ep = upper m \<and> ep_path ep = path \<and> ep_tags ep = JList []"
    by simp
qed

lemma untagged_statistics:
  "get_statistics untagged_doc = Inr \<lparr> title = JStr ''Unknown'', version = JStr ''Unknown'',
     total_endpoints = 1, methods = [(''get'', 1)], tags = [(JStr ''untagged'', 1)],
     schemas = 0, security_schemes = 0 \<rparr>"
  by (simp add: get_statistics_def untagged_doc_def METHODS_def)

lemma untagged_endpoints:
  "list_all_endpoints untagged_doc = Inr [
     \<lparr> ep_method = ''GET'', ep_path = ''/a'', ep_summary = JStr [],
       ep_tags = JList [], ep_deprecated = JBool False \<rparr>]"
  by (simp add: list_all_endpoints_def untagged_doc_def METHODS_def uppers)

theorem untagged_bucket_witness:
  "get_statistics untagged_doc = Inr \<lparr> title = JStr ''Unknown'', version = JStr ''Unknown'',
       total_endpoints = 1, methods = [(''get'', 1)], tags = [(JStr ''untagged'', 1)],
       schemas = 0, security_schemes = 0 \<rparr>
   \<and> counted (JStr ''untagged'')
        (tags \<lparr> title = JStr ''Unknown'', version = JStr ''Unknown'',
           total_endpoints = 1, methods = [(''get'', 1)], tags = [(JStr ''untagged'', 1)],
           schemas = 0, security_schemes = 0 \<rparr>)
   \<and> list_all_endpoints untagged_doc = Inr [
        \<lparr> ep_method = ''GET'', ep_path = ''/a'', ep_summary = JStr [],
          ep_tags = JList [], ep_deprecated = JBool False \<rparr>]
   \<and> (\<exists>ep\<in>set [\<lparr> ep_method = ''GET'', ep_path = ''/a'', ep_summary = JStr [],
                   ep_tags = JList [], ep_deprecated = JBool False \<rparr>].
         ep_method ep = upper ''get'' \<and> ep_path ep = ''/a'' \<and> ep_tags ep = JList [])"
proof -
  have h1: "py_get untagged_doc ''paths'' (JObj []) = Inr (JObj [(''/a'', JObj [(''get'', JObj [])])])"
    by (simp add: untagged_doc_def)
  have h2: "(''/a'', JObj [(''get'', JObj [])]) \<in> set [(''/a'', JObj [(''get'', JObj [])])]" by simp
  have h3: "''get'' \<in> set METHODS" by (simp add: METHODS_def)
  have h4: "py_in ''get'' (JObj [(''get'', JObj [])]) = Inr True" by simp
  have h5: "py_getitem (JObj [(''get'', JObj [])]) ''get'' = Inr (JObj [])" by simp
  have h6: "map_of ([] :: (string \<times> json) list) ''tags'' = None" by simp
  note u = untagged_bucket[OF h1 h2 h3 h4 h5 h6]
  from u untagged_statistics have a: "counted (JStr ''untagged'')
     (tags \<lparr> title = JStr ''Unknown'', version = JStr ''Unknown'',
       total_endpoints = 1, methods = [(''get'', 1)], tags = [(JStr ''untagged'', 1)],
       schemas = 0, security_schemes = 0 \<rparr>)" by blast
  from u untagged_endpoints
  have b: "\<exists>ep\<in>set [\<lparr> ep_method = ''GET'', ep_path = ''/a'', ep_summary = JStr [],
                   ep_tags = JList [], ep_deprecated = JBool False \<rparr>].
         ep_method ep = upper ''get'' \<and> ep_path ep = ''/a'' \<and> ep_tags ep = JList []" by blast
  from untagged_statistics a untagged_endpoints b show ?thesis by (intro conjI)
qed

text \<open>
  C2 as stated fails: after extraction the endpoint of an operation without tags has an empty
  tag list.
\<close>

theorem extraction_leaves_tags_empty:
  "list_all_endpoints untagged_doc = Inr [
     \<lparr> ep_method = ''GET'', ep_path = ''/a'', ep_summary = JStr [],
       ep_tags = JList [], ep_deprecated = JBool False \<rparr>]"
  by (simp add: list_all_endpoints_def untagged_doc_def METHODS_def uppers)

section \<open>Reference resolution\<close>

lemma catch_simps [simp]:
  "catch_key_type (Inr x) d = Inr x"
  "catch_key_type (Inl KeyError) d = Inr d"
  "catch_key_type (Inl TypeError) d = Inr d"
  "catch_key_type (Inl AttributeError) d = Inl AttributeError"
  "catch_key_type (Inl IndexError) d = Inl IndexError"
  by (simp_all add: catch_key_type_def)

lemma descend_subtree:
  "catch_key_type (descend obj parts) JNull =
     Inr (case subtree_at obj parts of None \<Rightarrow> JNull | Some v \<Rightarrow> v)"
proof (induction parts arbitrary: obj)
  case Nil
  show ?case by simp
next
  case (Cons part parts)
  show ?case
  proof (cases obj)
    case (JObj kvs)
    show ?thesis
    proof (cases "map_of kvs part")
      case None
      with JObj show ?thesis by simp
    next
      case (Some v)
      with JObj Cons.IH[of v] show ?thesis by simp
    qed
  qed simp_all
qed

text \<open>
  C3, as the code has it.  For every document, with a reference cycle or not, and every
  pointer string, resolution returns and raises nothing: absent when the pointer does not
  start with \<open>#/\<close> or a segment is missing, and otherwise the object stored at the
  pointer as it is.  A \<open>$ref\<close> inside that object is not followed; there is one lookup per
  segment of the pointer.
\<close>

theorem resolve_returns_stored_object:
  "resolve_schema_reference spec (JStr ref) =
     Inr (if prefix ''#/'' ref
          then (case subtree_at spec (py_split CHR ''/'' (drop 2 ref)) of
                  None \<Rightarrow> JNull | Some v \<Rightarrow> v)
          else JNull)"
  by (simp add: descend_subtree)

theorem resolve_returns_stored_object_witness:
  "resolve_schema_reference cyclic_doc (JStr ''#/components/schemas/B'')
     = Inr (JObj [(''$ref'', JStr ''#/components/schemas/A'')])"
  using resolve_returns_stored_object [of cyclic_doc "''#/components/schemas/B''"]
  by (simp add: cyclic_doc_def)

text \<open>
  C3 as stated fails: on the cycle \<open>A \<rightarrow> B \<rightarrow> A\<close>, resolving the pointer to \<open>A\<close> succeeds
  with the object that holds the reference to \<open>B\<close>; no cycle condition is raised.
\<close>

theorem resolve_cycle_returns_ref:
  "resolve_schema_reference cyclic_doc (JStr ''#/components/schemas/A'')
     = Inr (JObj [(''$ref'', JStr ''#/components/schemas/B'')])"
  by (simp add: cyclic_doc_def)

lemma split_no_sep: "sep \<notin> set k \<Longrightarrow> py_split sep k = [k]"
  by (induction k) auto

lemma split_append: "sep \<notin> set k \<Longrightarrow> py_split sep (k @ sep # rest) = k # py_split sep rest"
  by (induction k) auto

lemma split_join:
  "ks \<noteq> [] \<Longrightarrow> \<forall>k\<in>set ks. sep \<notin> set k \<Longrightarrow> py_split sep (join [sep] ks) = ks"
proof (induction ks rule: induct_list012)
  case 1
  then show ?case by simp
next
  case (2 x)
  then show ?case by (simp add: split_no_sep)
next
  case (3 x y zs)
  then show ?case by (simp add: split_append)
qed

text \<open>
  C4, as the code has it.  Resolution takes a pointer string.  When the keys \<open>ks\<close> (none
  containing a slash) lead to an object of the document, resolving the pointer
  \<open>#/k1/.../kn\<close> returns exactly that object, unchanged.
\<close>

theorem resolve_pointer_to_inline:
  assumes "ks \<noteq> []" and "\<forall>k\<in>set ks. CHR ''/'' \<notin> set k" and "subtree_at spec ks = Some v"
  shows "resolve_schema_reference spec (JStr (''#/'' @ join ''/'' ks)) = Inr v"
  using assms split_join[of ks "CHR ''/''"] by (simp add: descend_subtree)

theorem resolve_pointer_to_inline_witness:
  "resolve_schema_reference inline_doc (JStr ''#/components/schemas/Pet'')
     = Inr (JObj [(''type'', JStr ''object'')])"
proof -
  have h1: "[''components'', ''schemas'', ''Pet''] \<noteq> []" by simp
  have h2: "\<forall>k\<in>set [''components'', ''schemas'', ''Pet'']. CHR ''/'' \<notin> set k" by simp
  have h3: "subtree_at inline_doc [''components'', ''schemas'', ''Pet'']
              = Some (JObj [(''type'', JStr ''object'')])"
    by (simp add: inline_doc_def)
  from resolve_pointer_to_inline[OF h1 h2 h3] show ?thesis by simp
qed

text \<open>
  C4 as stated fails: given an inline object instead of a pointer string, resolution raises
  \<open>AttributeError\<close> (only a string has \<open>startswith\<close>).
\<close>

theorem resolve_inline_object_raises:
  "resolve_schema_reference inline_doc (JObj [(''type'', JStr ''object'')]) = Inl AttributeError"
  by simp

section \<open>Request and response schemas\<close>

lemma py_getitem_errors: "py_getitem x k = Inl e \<Longrightarrow> e = KeyError \<or> e = TypeError"
  by (cases x) (auto split: option.splits)

lemma operation_at_errors:
  "operation_at spec path m = Inl e \<Longrightarrow> e = KeyError \<or> e = TypeError"
  unfolding operation_at_def bindE_def
  by (auto split: sum.splits dest: py_getitem_errors)

lemma py_in_dict: "py_in k (JObj kvs) = Inr (map_of kvs k \<noteq> None)"
  by (simp add: map_of_eq_None_iff)

lemma first_schema_mappings:
  "list_all (\<lambda>c. is_dict (snd c)) content \<Longrightarrow>
     first_schema content = Inr (case first_declared_schema content of None \<Rightarrow> JNull | Some s \<Rightarrow> s)"
proof (induction content)
  case Nil
  show ?case by simp
next
  case (Cons c content)
  obtain ct cd where c: "c = (ct, cd)" by (cases c)
  with Cons.prems obtain kvs where cd: "cd = JObj kvs" by (cases cd) simp_all
  from Cons c cd show ?case
    by (cases "map_of kvs ''schema''") (simp_all add: py_in_dict del: py_in.simps(1))
qed

lemma lower_post:
  "ascii_lower ''POST'' = ''post''" "ascii_lower ''GET'' = ''get''"
  "ascii_lower ''post'' = ''post''" "ascii_lower ''get'' = ''get''"
  by (simp_all add: ascii_lower_def lower_char_def)

text \<open>
  What the function does on operations of the expected shape.  When the pair does not exist
  in the document (the lookup of the operation raises), the result is absent, not an error;
  when the operation is a mapping with no request body, the result is absent; and when the
  request body is a mapping whose content is a mapping of mappings, the result is the schema
  of the first-declared content type that carries a schema, or absent when no content entry
  carries one.
\<close>

lemma request_body_schema_cases:
  "(operation_at spec path (lower method) = Inl e
      \<longrightarrow> get_request_body_schema lower spec path method = Inr JNull)
   \<and> (operation_at spec path (lower method) = Inr (JObj operation)
        \<and> map_of operation ''requestBody'' = None
      \<longrightarrow> get_request_body_schema lower spec path method = Inr JNull)
   \<and> (operation_at spec path (lower method) = Inr (JObj operation)
        \<and> map_of operation ''requestBody'' = Some (JObj request_body)
        \<and> py_get (JObj request_body) ''content'' (JObj []) = Inr (JObj content)
        \<and> list_all (\<lambda>c. is_dict (snd c)) content
      \<longrightarrow> get_request_body_schema lower spec path method
            = Inr (case first_declared_schema content of None \<Rightarrow> JNull | Some s \<Rightarrow> s))"
proof (intro conjI impI)
  assume "operation_at spec path (lower method) = Inl e"
  with operation_at_errors[OF this] show "get_request_body_schema lower spec path method = Inr JNull"
    by (auto simp: get_request_body_schema_def)
next
  assume "operation_at spec path (lower method) = Inr (JObj operation)
        \<and> map_of operation ''requestBody'' = None"
  then show "get_request_body_schema lower spec path method = Inr JNull"
    by (simp add: get_request_body_schema_def)
next
  assume a: "operation_at spec path (lower method) = Inr (JObj operation)
        \<and> map_of operation ''requestBody'' = Some (JObj request_body)
        \<and> py_get (JObj request_body) ''content'' (JObj []) = Inr (JObj content)
        \<and> list_all (\<lambda>c. is_dict (snd c)) content"
  then have "first_schema content
     = Inr (case first_declared_schema content of None \<Rightarrow> JNull | Some s \<Rightarrow> s)"
    by (simp add: first_schema_mappings)
  moreover from a have "py_get (JObj operation) ''requestBody'' (JObj []) = Inr (JObj request_body)"
    by simp
  ultimately show "get_request_body_schema lower spec path method
            = Inr (case first_declared_schema content of None \<Rightarrow> JNull | Some s \<Rightarrow> s)"
    using a by (simp add: get_request_body_schema_def del: py_get.simps)
qed

lemma request_body_schema_examples:
  "get_request_body_schema ascii_lower two_types_doc ''/nope'' ''POST'' = Inr JNull
   \<and> get_request_body_schema ascii_lower pets_doc ''/pets'' ''GET'' = Inr JNull
   \<and> get_request_body_schema ascii_lower two_types_doc ''/pets'' ''POST'' = Inr (JObj [(''type'', JStr ''object'')])"
proof -
  have a: "operation_at two_types_doc ''/nope'' (ascii_lower ''POST'') = Inl KeyError"
    by (simp add: operation_at_def two_types_doc_def lower_post)
  have b: "operation_at pets_doc ''/pets'' (ascii_lower ''GET'')
             = Inr (JObj [(''tags'', JList [JStr ''pets'']), (''summary'', JStr ''List pets'')])
           \<and> map_of [(''tags'', JList [JStr ''pets'']), (''summary'', JStr ''List pets'')]
                ''requestBody'' = None"
    by (simp add: operation_at_def pets_doc_def lower_post)
  let ?content = "[(''application/json'', JObj [(''schema'', JObj [(''type'', JStr ''object'')])]),
          (''application/xml'', JObj [(''schema'', JObj [(''type'', JStr ''string'')])])]"
  let ?rb = "[(''content'', JObj ?content)]"
  let ?op = "[(''requestBody'', JObj ?rb),
      (''responses'', JObj [
          (''200'', JObj [(''content'', JObj ?content)]),
          (''404'', JObj [(''description'', JStr ''missing'')])])]"
  have c: "operation_at two_types_doc ''/pets'' (ascii_lower ''POST'') = Inr (JObj ?op)
        \<and> map_of ?op ''requestBody'' = Some (JObj ?rb)
        \<and> py_get (JObj ?rb) ''content'' (JObj []) = Inr (JObj ?content)
        \<and> list_all (\<lambda>c. is_dict (snd c)) ?content"
    by (simp add: operation_at_def two_types_doc_def lower_post)
  from a request_body_schema_cases[of two_types_doc "''/nope''" ascii_lower "''POST''" KeyError]
  have 1: "get_request_body_schema ascii_lower two_types_doc ''/nope'' ''POST'' = Inr JNull" by blast
  from b request_body_schema_cases[of pets_doc "''/pets''" ascii_lower "''GET''" _
      "[(''tags'', JList [JStr ''pets'']), (''summary'', JStr ''List pets'')]"]
  have 2: "get_request_body_schema ascii_lower pets_doc ''/pets'' ''GET'' = Inr JNull" by blast
  from c request_body_schema_cases[of two_types_doc "''/pets''" ascii_lower "''POST''" _ "?op" "?rb" "?content"]
  have "get_request_body_schema ascii_lower two_types_doc ''/pets'' ''POST''
     = Inr (case first_declared_schema ?content of None \<Rightarrow> JNull | Some s \<Rightarrow> s)" by blast
  then have 3: "get_request_body_schema ascii_lower two_types_doc ''/pets'' ''POST''
     = Inr (JObj [(''type'', JStr ''object'')])" by simp
  from 1 2 3 show ?thesis by blast
qed

text \<open>
  C8 at operations whose request body is \<open>null\<close>, which are \<open>null\<close> themselves, or
  whose content is \<open>null\<close>: such an endpoint has no request body and no content entry with a
  schema, so the claim gives the absent value and no error.  The code raises: \<open>get\<close> and
  \<open>items\<close> on \<open>None\<close> are an \<open>AttributeError\<close>, which the clause
  \<open>except (KeyError, TypeError)\<close> does not catch.
\<close>

theorem request_body_null_raises:
  "get_request_body_schema ascii_lower broken_body_doc ''/a'' ''post'' = Inl AttributeError
   \<and> get_request_body_schema ascii_lower broken_body_doc ''/b'' ''post'' = Inl AttributeError
   \<and> get_request_body_schema ascii_lower broken_body_doc ''/c'' ''post'' = Inl AttributeError"
  by (simp add: get_request_body_schema_def operation_at_def broken_body_doc_def lower_post)















section \<open>CSV export\<close>

lemma write_rows_ok:
  "write_rows eps out = (out', None) \<Longrightarrow>
     \<exists>rows. out' = out @ map Row rows \<and> list_all2 row_of eps rows"
proof (induction eps arbitrary: out)
  case Nil
  then show ?case by simp
next
  case (Cons ep eps)
  from Cons.prems obtain joined where j: "str_join '', '' (ep_tags ep) = Inr joined"
    by (cases "str_join '', '' (ep_tags ep)") simp_all
  let ?r = "\<lparr> Method = ep_method ep, Path = ep_path ep, Summary = ep_summary ep,
                Tags = joined, Deprecated = ep_deprecated ep \<rparr>"
  from Cons.prems j have "write_rows eps (out @ [Row ?r]) = (out', None)" by simp
  from Cons.IH[OF this] obtain rows where
    r: "out' = (out @ [Row ?r]) @ map Row rows" "list_all2 row_of eps rows" by blast
  have "row_of ep ?r" using j by (simp add: row_of_def)
  with r have "out' = out @ map Row (?r # rows) \<and> list_all2 row_of (ep # eps) (?r # rows)"
    by simp
  then show ?case by blast
qed

lemma write_rows_prefix: "write_rows eps out = (out', err) \<Longrightarrow> \<exists>rest. out' = out @ rest"
proof (induction eps arbitrary: out)
  case Nil
  then show ?case by simp
next
  case (Cons ep eps)
  show ?case
  proof (cases "str_join '', '' (ep_tags ep)")
    case (Inl e)
    with Cons.prems show ?thesis by simp
  next
    case (Inr joined)
    with Cons.prems obtain r where "write_rows eps (out @ [r]) = (out', err)" by simp
    from Cons.IH[OF this] show ?thesis by auto
  qed
qed

lemma as_strs_total: "list_all is_str xs \<Longrightarrow> \<exists>ss. as_strs xs = Inr ss"
proof (induction xs)
  case Nil
  show ?case by simp
next
  case (Cons x xs)
  then obtain s where "x = JStr s" by (cases x) simp_all
  with Cons show ?case by auto
qed

lemma str_join_total: "string_list x \<Longrightarrow> \<exists>j. str_join sep x = Inr j"
proof (cases x)
  case (JList xs)
  assume "string_list x"
  with JList have "list_all is_str xs" by (simp add: string_list_def)
  from as_strs_total[OF this] JList show ?thesis by (auto simp: str_join_def)
qed (simp_all add: string_list_def)

lemma write_rows_strings:
  "list_all (\<lambda>ep. string_list (ep_tags ep)) eps \<Longrightarrow>
     \<exists>rows. write_rows eps out = (out @ map Row rows, None) \<and> list_all2 row_of eps rows"
proof (induction eps arbitrary: out)
  case Nil
  show ?case by simp
next
  case (Cons ep eps)
  from Cons.prems have t: "string_list (ep_tags ep)"
    and rest: "list_all (\<lambda>ep. string_list (ep_tags ep)) eps" by simp_all
  from str_join_total[OF t] obtain joined where j: "str_join '', '' (ep_tags ep) = Inr joined"
    by blast
  let ?r = "\<lparr> Method = ep_method ep, Path = ep_path ep, Summary = ep_summary ep,
                Tags = joined, Deprecated = ep_deprecated ep \<rparr>"
  from Cons.IH[OF rest, of "out @ [Row ?r]"] obtain rows where
    w: "write_rows eps (out @ [Row ?r]) = ((out @ [Row ?r]) @ map Row rows, None)"
    and l: "list_all2 row_of eps rows" by blast
  have "row_of ep ?r" using j by (simp add: row_of_def)
  with w l j have "write_rows (ep # eps) out = (out @ map Row (?r # rows), None)
        \<and> list_all2 row_of (ep # eps) (?r # rows)" by simp
  then show ?case by blast
qed

lemma export_strings:
  assumes "list_all_endpoints spec = Inr eps" and "list_all (\<lambda>ep. string_list (ep_tags ep)) eps"
  shows "\<exists>rows. export_endpoints_csv spec
          = (Some (Header [''Method'', ''Path'', ''Summary'', ''Tags'', ''Deprecated'']
                   # map Row rows), None)
        \<and> list_all2 row_of eps rows"
proof -
  from write_rows_strings[OF assms(2),
      of "[Header [''Method'', ''Path'', ''Summary'', ''Tags'', ''Deprecated'']]"]
  obtain rows where
    "write_rows eps [Header [''Method'', ''Path'', ''Summary'', ''Tags'', ''Deprecated'']]
       = ([Header [''Method'', ''Path'', ''Summary'', ''Tags'', ''Deprecated'']] @ map Row rows, None)"
    and "list_all2 row_of eps rows" by blast
  with assms(1) show ?thesis by (auto simp: export_endpoints_csv_def)
qed

lemma list_all_endpoints_sorted:
  "list_all_endpoints spec = Inr eps \<Longrightarrow> sorted (map (\<lambda>e. (ep_path e, ep_method e)) eps)"
  by (auto simp: list_all_endpoints_def bindE_Inr_iff)

lemma as_strs_strings: "as_strs (map JStr ts) = Inr ts"
  by (induction ts) simp_all

lemma str_join_strings: "str_join sep (JList (map JStr ts)) = Inr (join sep ts)"
  by (simp add: str_join_def as_strs_strings)

text \<open>
  C7.  When the export runs to its end, the file is the header row
  \<open>Method, Path, Summary, Tags, Deprecated\<close> followed by one row per endpoint of
  \<open>list_all_endpoints\<close>, in its order, which is ascending in the pair (path, method) under
  the lexicographic order of pairs and of strings; each row holds the endpoint's method,
  path, summary, its tags joined by comma and space, and its deprecated flag.  With no
  endpoint the file is the header row alone, and whenever the file is opened the header row is
  its first line.  The export does run to its end, with one row per endpoint, whenever
  \<open>list_all_endpoints\<close> returns and the tags of every endpoint are a list of strings.
\<close>

theorem csv_export:
  "(export_endpoints_csv spec = (file, None) \<longrightarrow>
      (\<exists>eps rows. list_all_endpoints spec = Inr eps
         \<and> file = Some (Header [''Method'', ''Path'', ''Summary'', ''Tags'', ''Deprecated'']
                        # map Row rows)
         \<and> sorted (map (\<lambda>e. (ep_path e, ep_method e)) eps)
         \<and> list_all2 row_of eps rows))
   \<and> (list_all_endpoints spec = Inr [] \<longrightarrow>
        export_endpoints_csv spec
          = (Some [Header [''Method'', ''Path'', ''Summary'', ''Tags'', ''Deprecated'']], None))
   \<and> (list_all_endpoints spec = Inr eps' \<longrightarrow>
        (\<exists>rest err. export_endpoints_csv spec
          = (Some (Header [''Method'', ''Path'', ''Summary'', ''Tags'', ''Deprecated''] # rest), err)))
   \<and> str_join '', '' (JList (map JStr ts)) = Inr (join '', '' ts)
   \<and> (list_all_endpoints spec = Inr eps' \<and> list_all (\<lambda>ep. string_list (ep_tags ep)) eps' \<longrightarrow>
        (\<exists>rows. export_endpoints_csv spec
           = (Some (Header [''Method'', ''Path'', ''Summary'', ''Tags'', ''Deprecated'']
                    # map Row rows), None)
         \<and> list_all2 row_of eps' rows))"
proof (intro conjI impI)
  let ?h = "Header [''Method'', ''Path'', ''Summary'', ''Tags'', ''Deprecated'']"
  assume a: "export_endpoints_csv spec = (file, None)"
  then obtain eps where e: "list_all_endpoints spec = Inr eps"
    by (cases "list_all_endpoints spec") (simp_all add: export_endpoints_csv_def)
  with a obtain out where w: "write_rows eps [?h] = (out, None)" and f: "file = Some out"
    by (auto simp: export_endpoints_csv_def split: prod.splits)
  from write_rows_ok[OF w] obtain rows where "out = [?h] @ map Row rows" "list_all2 row_of eps rows"
    by blast
  with e f list_all_endpoints_sorted[OF e]
  show "\<exists>eps rows. list_all_endpoints spec = Inr eps
         \<and> file = Some (?h # map Row rows)
         \<and> sorted (map (\<lambda>e. (ep_path e, ep_method e)) eps)
         \<and> list_all2 row_of eps rows"
    by auto
next
  assume "list_all_endpoints spec = Inr []"
  then show "export_endpoints_csv spec
          = (Some [Header [''Method'', ''Path'', ''Summary'', ''Tags'', ''Deprecated'']], None)"
    by (simp add: export_endpoints_csv_def)
next
  let ?h = "Header [''Method'', ''Path'', ''Summary'', ''Tags'', ''Deprecated'']"
  assume e: "list_all_endpoints spec = Inr eps'"
  obtain out err where w: "write_rows eps' [?h] = (out, err)" by (cases "write_rows eps' [?h]")
  from write_rows_prefix[OF w] obtain rest where "out = ?h # rest" by auto
  with e w show "\<exists>rest err. export_endpoints_csv spec = (Some (?h # rest), err)"
    by (simp add: export_endpoints_csv_def)
next
  show "str_join '', '' (JList (map JStr ts)) = Inr (join '', '' ts)"
    by (rule str_join_strings)
next
  assume "list_all_endpoints spec = Inr eps' \<and> list_all (\<lambda>ep. string_list (ep_tags ep)) eps'"
  then show "\<exists>rows. export_endpoints_csv spec
           = (Some (Header [''Method'', ''Path'', ''Summary'', ''Tags'', ''Deprecated'']
                    # map Row rows), None)
         \<and> list_all2 row_of eps' rows"
    using export_strings by blast
qed

lemma pets_csv:
  "export_endpoints_csv pets_doc =
     (Some [Header [''Method'', ''Path'', ''Summary'', ''Tags'', ''Deprecated''],
            Row \<lparr> Method = ''GET'', Path = ''/pets'', Summary = JStr ''List pets'',
                  Tags = ''pets'', Deprecated = JBool False \<rparr>,
            Row \<lparr> Method = ''POST'', Path = ''/pets'', Summary = JStr [],
                  Tags = ''pets'', Deprecated = JBool False \<rparr>], None)"
  by (simp add: export_endpoints_csv_def pets_endpoints str_join_def)

lemma empty_endpoints: "list_all_endpoints (JObj []) = Inr []"
  by (simp add: list_all_endpoints_def)

theorem csv_export_witness:
  "(\<exists>eps rows. list_all_endpoints pets_doc = Inr eps
       \<and> [Header [''Method'', ''Path'', ''Summary'', ''Tags'', ''Deprecated''],
            Row \<lparr> Method = ''GET'', Path = ''/pets'', Summary = JStr ''List pets'',
                  Tags = ''pets'', Deprecated = JBool False \<rparr>,
            Row \<lparr> Method = ''POST'', Path = ''/pets'', Summary = JStr [],
                  Tags = ''pets'', Deprecated = JBool False \<rparr>]
          = Header [''Method'', ''Path'', ''Summary'', ''Tags'', ''Deprecated''] # map Row rows
       \<and> sorted (map (\<lambda>e. (ep_path e, ep_method e)) eps)
       \<and> list_all2 row_of eps rows)
   \<and> export_endpoints_csv (JObj [])
        = (Some [Header [''Method'', ''Path'', ''Summary'', ''Tags'', ''Deprecated'']], None)
   \<and> (\<exists>rest err. export_endpoints_csv (JObj [])
        = (Some (Header [''Method'', ''Path'', ''Summary'', ''Tags'', ''Deprecated''] # rest), err))
   \<and> str_join '', '' (JList [JStr ''a'', JStr ''b'']) = Inr ''a, b''
   \<and> export_endpoints_csv pets_doc =
       (Some [Header [''Method'', ''Path'', ''Summary'', ''Tags'', ''Deprecated''],
            Row \<lparr> Method = ''GET'', Path = ''/pets'', Summary = JStr ''List pets'',
                  Tags = ''pets'', Deprecated = JBool False \<rparr>,
            Row \<lparr> Method = ''POST'', Path = ''/pets'', Summary = JStr [],
                  Tags = ''pets'', Deprecated = JBool False \<rparr>], None)
   \<and> (\<exists>rows. export_endpoints_csv pets_doc
           = (Some (Header [''Method'', ''Path'', ''Summary'', ''Tags'', ''Deprecated'']
                    # map Row rows), None)
         \<and> length rows = 2)"
proof -
  let ?eps = "[\<lparr> ep_method = ''GET'', ep_path = ''/pets'', ep_summary = JStr ''List pets'',
       ep_tags = JList [JStr ''pets''], ep_deprecated = JBool False \<rparr>,
     \<lparr> ep_method = ''POST'', ep_path = ''/pets'', ep_summary = JStr [],
       ep_tags = JList [JStr ''pets''], ep_deprecated = JBool False \<rparr>]"
  have h: "list_all_endpoints pets_doc = Inr ?eps
           \<and> list_all (\<lambda>ep. string_list (ep_tags ep)) ?eps"
    by (simp add: pets_endpoints string_list_def)
  note c5 = csv_export[where spec=pets_doc and eps'="?eps", THEN conjunct2, THEN conjunct2,
      THEN conjunct2, THEN conjunct2, rule_format, OF h]
  from c5 obtain rows where
    r: "export_endpoints_csv pets_doc
           = (Some (Header [''Method'', ''Path'', ''Summary'', ''Tags'', ''Deprecated'']
                    # map Row rows), None)"
    and l: "list_all2 row_of ?eps rows" by blast
  from l have "length rows = 2" by (auto dest: list_all2_lengthD)
  with r have 5: "\<exists>rows. export_endpoints_csv pets_doc
           = (Some (Header [''Method'', ''Path'', ''Summary'', ''Tags'', ''Deprecated'']
                    # map Row rows), None)
         \<and> length rows = 2" by blast
  note c1 = csv_export[where spec=pets_doc and ts="[''a'', ''b'']", THEN conjunct1, rule_format, OF pets_csv]
  note c2 = csv_export[where spec="JObj []" and eps'="[]" and ts="[''a'', ''b'']"]
  from c2 empty_endpoints have 2: "export_endpoints_csv (JObj [])
        = (Some [Header [''Method'', ''Path'', ''Summary'', ''Tags'', ''Deprecated'']], None)"
    by blast
  from c2 empty_endpoints have 3: "\<exists>rest err. export_endpoints_csv (JObj [])
        = (Some (Header [''Method'', ''Path'', ''Summary'', ''Tags'', ''Deprecated''] # rest), err)"
    by blast
  from c2 have 4: "str_join '', '' (JList [JStr ''a'', JStr ''b'']) = Inr ''a, b''" by simp
  from c1 have 1: "\<exists>eps rows. list_all_endpoints pets_doc = Inr eps
       \<and> [Header [''Method'', ''Path'', ''Summary'', ''Tags'', ''Deprecated''],
            Row \<lparr> Method = ''GET'', Path = ''/pets'', Summary = JStr ''List pets'',
                  Tags = ''pets'', Deprecated = JBool False \<rparr>,
            Row \<lparr> Method = ''POST'', Path = ''/pets'', Summary = JStr [],
                  Tags = ''pets'', Deprecated = JBool False \<rparr>]
          = Header [''Method'', ''Path'', ''Summary'', ''Tags'', ''Deprecated''] # map Row rows
       \<and> sorted (map (\<lambda>e. (ep_path e, ep_method e)) eps)
       \<and> list_all2 row_of eps rows"
    by simp
  from 1 2 3 4 pets_csv 5 show ?thesis by (intro conjI)
qed

section \<open>Postman collection\<close>

lemma head_endpoints:
  "list_all_endpoints head_doc = Inr [
     \<lparr> ep_method = ''HEAD'', ep_path = ''/status'', ep_summary = JStr ''Ping'',
       ep_tags = JList [], ep_deprecated = JBool False \<rparr>,
     \<lparr> ep_method = ''OPTIONS'', ep_path = ''/status'', ep_summary = JStr [],
       ep_tags = JList [], ep_deprecated = JBool False \<rparr>]"
  by (simp add: list_all_endpoints_def head_doc_def METHODS_def uppers)

text \<open>
  C6 at a document with a \<open>head\<close> and an \<open>options\<close> operation: extraction lists both
  endpoints, and the collection has no item for either, since its loop runs over
  \<open>get, post, put, delete, patch\<close> only.
\<close>

theorem postman_omits_head_and_options:
  "generate_postman_collection head_doc =
     Inr \<lparr> info_name = JStr ''API'', info_description = JStr [], info_version = JStr ''1.0.0'',
           item = [], variable = [] \<rparr>
   \<and> list_all_endpoints head_doc = Inr [
     \<lparr> ep_method = ''HEAD'', ep_path = ''/status'', ep_summary = JStr ''Ping'',
       ep_tags = JList [], ep_deprecated = JBool False \<rparr>,
     \<lparr> ep_method = ''OPTIONS'', ep_path = ''/status'', ep_summary = JStr [],
       ep_tags = JList [], ep_deprecated = JBool False \<rparr>]"
  by (simp add: generate_postman_collection_def head_doc_def POSTMAN_METHODS_def head_endpoints[unfolded head_doc_def])

end
